theory Spec2Isabelle
  imports Main "HOL-Library.Word"
begin

section \<open>JavaScript strings\<close>

text \<open>
  A JavaScript string is a sequence of UTF-16 code units. The regular expressions of the
  source carry no \<open>u\<close> flag, so they, \<open>charAt\<close>, \<open>endsWith\<close>, \<open>slice\<close> and \<open>trim\<close> all work
  on code units; only \<open>codePointAt\<close> joins a surrogate pair.
\<close>

type_synonym jschar = "16 word"
type_synonym jsstring = "jschar list"

text \<open>An ASCII literal as a JavaScript string, and one ASCII character as a code unit.\<close>

definition js :: "string \<Rightarrow> jsstring" where
  "js s = map of_char s"

abbreviation (input) ch :: "char \<Rightarrow> jschar" where
  "ch c \<equiv> of_char c"

text \<open>
  \<open>String.prototype.codePointAt(pos)\<close>: \<open>undefined\<close> (here \<open>None\<close>) beyond the end; the code
  unit at \<open>pos\<close>, unless it is a leading surrogate followed by a trailing one, which are
  joined into one code point above \<open>0xFFFF\<close>.
\<close>

definition codePointAt :: "jsstring \<Rightarrow> nat \<Rightarrow> nat option" where
  "codePointAt s pos =
     (if length s \<le> pos then None
      else let first = s ! pos in
        if first < 0xD800 \<or> 0xDBFF < first \<or> Suc pos = length s then Some (unat first)
        else let second = s ! Suc pos in
          if second < 0xDC00 \<or> 0xDFFF < second then Some (unat first)
          else Some ((unat first - 0xD800) * 0x400 + (unat second - 0xDC00) + 0x10000))"

section \<open>Sigil grammar: flag recognisers\<close>

text \<open>\<open>isFlag\<close>: \<open>str.codePointAt(0) === 45\<close>.\<close>

definition isFlag :: "jsstring \<Rightarrow> bool" where
  "isFlag str = (codePointAt str 0 = Some 45)"

text \<open>\<open>isShortFlag\<close>: \<open>isFlag(str) && str.codePointAt(1) !== 45\<close>.\<close>

definition isShortFlag :: "jsstring \<Rightarrow> bool" where
  "isShortFlag str = (isFlag str \<and> codePointAt str 1 \<noteq> Some 45)"

text \<open>\<open>isLongFlag\<close>: \<open>isFlag(str) && str.codePointAt(1) === 45\<close>.\<close>

definition isLongFlag :: "jsstring \<Rightarrow> bool" where
  "isLongFlag str = (isFlag str \<and> codePointAt str 1 = Some 45)"

section \<open>Regular-expression primitives\<close>

text \<open>
  \<open>.\<close> matches every code unit but a line terminator; \<open>trim\<close> removes white space and
  line terminators from both ends.
\<close>

definition isLineTerminator :: "jschar \<Rightarrow> bool" where
  "isLineTerminator c = (c = 0x0A \<or> c = 0x0D \<or> c = 0x2028 \<or> c = 0x2029)"

definition isWhiteSpace :: "jschar \<Rightarrow> bool" where
  "isWhiteSpace c =
     (c = 0x09 \<or> c = 0x0B \<or> c = 0x0C \<or> c = 0x20 \<or> c = 0xA0 \<or> c = 0x1680
      \<or> (0x2000 \<le> c \<and> c \<le> 0x200A) \<or> c = 0x202F \<or> c = 0x205F \<or> c = 0x3000
      \<or> c = 0xFEFF \<or> isLineTerminator c)"

definition trim :: "jsstring \<Rightarrow> jsstring" where
  "trim s = rev (dropWhile isWhiteSpace (rev (dropWhile isWhiteSpace s)))"

text \<open>
  The pattern \<open>.*x\<close> tried at the head of the input, as a backtracking matcher runs it:
  the star first takes the next code unit (unless it is a line terminator) and the rest
  of the pattern is tried behind it; only when that fails is \<open>x\<close> tried here. The result
  is the text the star took and the input left after \<open>x\<close>.
\<close>

fun dotStarThen :: "jschar \<Rightarrow> jsstring \<Rightarrow> (jsstring \<times> jsstring) option" where
  "dotStarThen x [] = None"
| "dotStarThen x (c # cs) =
     (case (if isLineTerminator c then None else dotStarThen x cs) of
        Some (body, rest) \<Rightarrow> Some (c # body, rest)
      | None \<Rightarrow> if c = x then Some ([], cs) else None)"

text \<open>The pattern \<open>.+x\<close>: one code unit that is no line terminator, then \<open>.*x\<close>.\<close>

fun dotPlusThen :: "jschar \<Rightarrow> jsstring \<Rightarrow> (jsstring \<times> jsstring) option" where
  "dotPlusThen x [] = None"
| "dotPlusThen x (c # cs) =
     (if isLineTerminator c then None
      else case dotStarThen x cs of
        Some (body, rest) \<Rightarrow> Some (c # body, rest)
      | None \<Rightarrow> None)"

text \<open>The pattern \<open>[^]*x\<close>: as \<open>.*x\<close>, but \<open>[^]\<close> matches line terminators too.\<close>

fun anyStarThen :: "jschar \<Rightarrow> jsstring \<Rightarrow> (jsstring \<times> jsstring) option" where
  "anyStarThen x [] = None"
| "anyStarThen x (c # cs) =
     (case anyStarThen x cs of
        Some (body, rest) \<Rightarrow> Some (c # body, rest)
      | None \<Rightarrow> if c = x then Some ([], cs) else None)"

text \<open>
  The pattern \<open>.+$\<close> (no \<open>m\<close> flag, so \<open>$\<close> is the end of the input): the plus takes the
  longest run without a line terminator, and giving code units back never reaches the end.
\<close>

definition dotPlusEnd :: "jsstring \<Rightarrow> bool" where
  "dotPlusEnd cs = (cs \<noteq> [] \<and> list_all (\<lambda>c. \<not> isLineTerminator c) cs)"

text \<open>
  The lookahead body \<open>[^<]*>\<close> tried at the head of the input: the star takes a code unit
  other than \<open><\<close> and tries on; failing that, \<open>>\<close> is tried here.
\<close>

fun gtAhead :: "jsstring \<Rightarrow> bool" where
  "gtAhead [] = False"
| "gtAhead (c # cs) = ((c \<noteq> ch CHR ''<'' \<and> gtAhead cs) \<or> c = ch CHR ''>'')"

section \<open>Sigil grammar: extractors and cleaners\<close>

text \<open>
  \<open>parseByChar\<close>: \<open>val.match(new RegExp(symbols[0] + '([^]*)' + symbols[1]))?.[1] ?? ''\<close>.
  The two symbols \<open>l\<close> and \<open>r\<close> are single code units that stand for themselves in a
  regular expression (\<open>literalSymbol\<close>), as the defaults \<open><\<close> and \<open>>\<close> do. The match is tried
  at every position from the left; group 1 is what \<open>[^]*\<close> took.
\<close>

definition literalSymbol :: "jschar \<Rightarrow> bool" where
  "literalSymbol c = (c \<noteq> 0x5C \<and> c \<notin> set (js ''^$.*+?()[]{}|''))"

fun matchByChar :: "jschar \<Rightarrow> jschar \<Rightarrow> jsstring \<Rightarrow> jsstring option" where
  "matchByChar l r [] = None"
| "matchByChar l r (c # cs) =
     (case (if c = l then anyStarThen r cs else None) of
        Some (body, rest) \<Rightarrow> Some body
      | None \<Rightarrow> matchByChar l r cs)"

definition parseByChar :: "jsstring \<Rightarrow> jschar \<Rightarrow> jschar \<Rightarrow> jsstring" where
  "parseByChar val l r = (case matchByChar l r val of Some body \<Rightarrow> body | None \<Rightarrow> [])"

text \<open>\<open>.replace(/<.*>/, '')\<close>: the leftmost match only.\<close>

fun removeHint :: "jsstring \<Rightarrow> jsstring" where
  "removeHint [] = []"
| "removeHint (c # cs) =
     (case (if c = ch CHR ''<'' then dotStarThen (ch CHR ''>'') cs else None) of
        Some (body, rest) \<Rightarrow> rest
      | None \<Rightarrow> c # removeHint cs)"

text \<open>
  \<open>.replace(/(\[.*\])/g, (a) => a.replace(/\|/g, '#'))\<close>: every match, from the left and
  without overlap, has each of its \<open>|\<close> turned into \<open>#\<close>.
\<close>

definition pipeToHash :: "jschar \<Rightarrow> jschar" where
  "pipeToHash c = (if c = ch CHR ''|'' then ch CHR ''#'' else c)"

function escapeBrackets :: "jsstring \<Rightarrow> jsstring" where
  "escapeBrackets [] = []"
| "escapeBrackets (c # cs) =
     (case (if c = ch CHR ''['' then dotStarThen (ch CHR '']'') cs else None) of
        Some (body, rest) \<Rightarrow> map pipeToHash (c # body @ [ch CHR '']'']) @ escapeBrackets rest
      | None \<Rightarrow> c # escapeBrackets cs)"
  by pat_completeness auto
termination
proof (relation "measure length")
  have shorter: "dotStarThen x cs = Some (body, rest) \<Longrightarrow> length rest < Suc (length cs)"
    for x cs body rest
    by (induction cs arbitrary: body) (auto split: if_splits option.splits)
  show "wf (measure (length :: jsstring \<Rightarrow> nat))"
    by simp
  show "(rest, c # cs) \<in> measure length"
    if "(if c = ch CHR ''['' then dotStarThen (ch CHR '']'') cs else None) = Some p"
      and "(body, rest) = p" for c cs p body rest
    using that shorter [of "ch CHR '']''" cs body rest] by (auto split: if_splits)
  show "(cs, c # cs) \<in> measure length" for c :: jschar and cs
    by simp
qed

text \<open>\<open>.replace(/\|.+$/, '')\<close>: the leftmost \<open>|\<close> from which \<open>.+$\<close> matches, and all behind it.\<close>

fun stripType :: "jsstring \<Rightarrow> jsstring" where
  "stripType [] = []"
| "stripType (c # cs) =
     (if c = ch CHR ''|'' \<and> dotPlusEnd cs then [] else c # stripType cs)"

text \<open>\<open>.replace('#', '|')\<close>: a string pattern replaces its first occurrence only.\<close>

fun replaceFirst :: "jschar \<Rightarrow> jschar \<Rightarrow> jsstring \<Rightarrow> jsstring" where
  "replaceFirst a b [] = []"
| "replaceFirst a b (c # cs) = (if c = a then b # cs else c # replaceFirst a b cs)"

text \<open>\<open>.replace(/^(!|\.\.\.|-)/, '')\<close>: the alternatives in their order, at the start only.\<close>

fun stripSigil :: "jsstring \<Rightarrow> jsstring" where
  "stripSigil [] = []"
| "stripSigil (c # cs) =
     (if c = ch CHR ''!'' then cs
      else if take 3 (c # cs) = js ''...'' then drop 3 (c # cs)
      else if c = ch CHR ''-'' then cs
      else c # cs)"

text \<open>\<open>cleanArg\<close>: the five replacements chained as in the source, then \<open>trim\<close>.\<close>

definition cleanArg :: "jsstring \<Rightarrow> jsstring" where
  "cleanArg val =
     trim (stripSigil (replaceFirst (ch CHR ''#'') (ch CHR ''|'')
       (stripType (escapeBrackets (removeHint val)))))"

text \<open>\<open>.replace(/\[(.+)\]/, '')\<close>: the leftmost match only.\<close>

fun removeBracket :: "jsstring \<Rightarrow> jsstring" where
  "removeBracket [] = []"
| "removeBracket (c # cs) =
     (case (if c = ch CHR ''['' then dotPlusThen (ch CHR '']'') cs else None) of
        Some (body, rest) \<Rightarrow> rest
      | None \<Rightarrow> c # removeBracket cs)"

text \<open>
  \<open>.split(/,(?![^<]*>)/)\<close>: the separator is a comma at which the lookahead fails. \<open>cur\<close> is the
  segment read so far; the end of the input closes the last segment, so the result of
  \<open>split\<close> is never empty.
\<close>

fun splitComma :: "jsstring \<Rightarrow> jsstring \<Rightarrow> jsstring list" where
  "splitComma cur [] = [cur]"
| "splitComma cur (c # cs) =
     (if c = ch CHR '','' \<and> \<not> gtAhead cs then cur # splitComma [] cs
      else splitComma (cur @ [c]) cs)"

definition splitFlag :: "jsstring \<Rightarrow> jsstring list" where
  "splitFlag val = map trim (splitComma [] (removeBracket val))"

datatype OptionalType = TString | TBoolean | TNumber | TArray

text \<open>\<open>value.replace(/<.*>/, '').charAt(0)\<close>; \<open>charAt\<close> is the empty string beyond the end.\<close>

definition sigilType :: "jsstring \<Rightarrow> OptionalType" where
  "sigilType s =
     (case s of
        [] \<Rightarrow> TString
      | c # cs \<Rightarrow>
          if c = ch CHR ''-'' then TNumber
          else if c = ch CHR ''!'' then TBoolean
          else if c = ch CHR ''.'' then TArray
          else TString)"

definition parseType :: "jsstring \<Rightarrow> OptionalType \<times> jsstring" where
  "parseType v = (sigilType (removeHint v), cleanArg v)"

section \<open>Schema compiler\<close>

text \<open>
  \<open>stripAnsi\<close> comes from the package \<open>strip-ansi\<close>, which is no part of this repository:
  every function that calls it takes it as its first argument \<open>sa\<close>.

  \<open>CmdOptions\<close>: the four type buckets are reached through the computed key
  \<open>options[type]\<close> and, like \<open>alias\<close> and \<open>default\<close>, exist only once they have been assigned
  (\<open>None\<close> is \<open>undefined\<close>). The alias object (\<open>aliasMap\<close>) maps a canonical name to the
  array of its aliases. The default value is of any type \<open>'d\<close>; the code only asks whether it is
  \<open>undefined\<close>.

  The objects \<open>alias\<close>, \<open>default\<close>, \<open>description\<close> and \<open>hints\<close> are used as dictionaries, and
  each is modelled by the map of its own entries. The assignment \<open>obj[key] = value\<close>
  creates or overwrites the own entry \<open>key\<close>, with one exception: \<open>__proto__\<close> is the accessor
  of \<open>Object.prototype\<close>, whose setter changes the prototype of \<open>obj\<close> (or does nothing,
  when the value is primitive) and creates no own entry. The prototype that the setter
  installs is not modelled.
\<close>

definition objSet :: "(jsstring \<rightharpoonup> 'v) \<Rightarrow> jsstring \<Rightarrow> 'v \<Rightarrow> (jsstring \<rightharpoonup> 'v)" where
  "objSet obj key v = (if key = js ''__proto__'' then obj else obj(key \<mapsto> v))"

record 'd CmdOptions =
  aliasMap :: "(jsstring \<rightharpoonup> jsstring list) option"
  defaults :: "(jsstring \<rightharpoonup> 'd) option"
  bucket :: "OptionalType \<Rightarrow> jsstring list option"
  required :: "jsstring list"
  description :: "jsstring \<rightharpoonup> jsstring"
  hints :: "jsstring \<rightharpoonup> jsstring"

text \<open>An entry \<open>[flags, description]\<close> or \<open>[flags, description, defaultValue]\<close>.\<close>

type_synonym 'd Arg = "jsstring \<times> jsstring option \<times> 'd option"

definition endsWith :: "jsstring \<Rightarrow> jschar \<Rightarrow> bool" where
  "endsWith s c = (s \<noteq> [] \<and> last s = c)"

text \<open>
  The body of \<open>flagArr.forEach((f, i) => ...)\<close> in \<open>argsHandle\<close>: \<open>aliasArr\<close> is the array
  \<open>alias\<close> of the source, filled by every segment but the last; the last segment
  (\<open>i === flagArr.length - 1\<close>) registers the flag.
\<close>

fun argsHandleEach ::
  "(jsstring \<Rightarrow> jsstring) \<Rightarrow> jsstring option \<Rightarrow> 'd option \<Rightarrow> jsstring list \<Rightarrow> jsstring list
     \<Rightarrow> 'd CmdOptions \<Rightarrow> 'd CmdOptions" where
  "argsHandleEach sa desc defaultValue aliasArr [] options = options"
| "argsHandleEach sa desc defaultValue aliasArr (f # fs) options =
     (let draftFlag = sa f; flag = cleanArg draftFlag in
      if fs = [] then
        let (type, val0) = parseType draftFlag;
            val = (if endsWith val0 (ch CHR ''!'') then butlast val0 else val0);
            options1 = (if endsWith val0 (ch CHR ''!'')
                        then options\<lparr>required := required options @ [val]\<rparr> else options);
            options2 = options1\<lparr>bucket := (bucket options1)
                         (type := Some (case bucket options1 type of
                                          Some names \<Rightarrow> names @ [val] | None \<Rightarrow> [val]))\<rparr>;
            options3 = options2\<lparr>aliasMap := Some
                         (objSet (case aliasMap options2 of Some m \<Rightarrow> m | None \<Rightarrow> Map.empty)
                            val aliasArr)\<rparr>;
            options4 = (case defaultValue of
                          Some d \<Rightarrow> options3\<lparr>defaults := Some
                            (objSet (case defaults options3 of Some m \<Rightarrow> m | None \<Rightarrow> Map.empty)
                               val d)\<rparr>
                        | None \<Rightarrow> options3);
            options5 = options4\<lparr>description := objSet (description options4) val
                         (case desc of Some d \<Rightarrow> d | None \<Rightarrow> [])\<rparr>
        in options5\<lparr>hints := objSet (hints options5) val
             (parseByChar draftFlag (ch CHR ''<'') (ch CHR ''>''))\<rparr>
      else argsHandleEach sa desc defaultValue (aliasArr @ [flag]) fs options)"

definition argsHandle :: "(jsstring \<Rightarrow> jsstring) \<Rightarrow> 'd Arg \<Rightarrow> 'd CmdOptions \<Rightarrow> 'd CmdOptions" where
  "argsHandle sa args options =
     (case args of (flags, desc, defaultValue) \<Rightarrow>
        argsHandleEach sa desc defaultValue [] (splitFlag flags) options)"

text \<open>\<open>parseCliArgs\<close>: the options it starts from, and \<open>argsHandle\<close> run over the entries.\<close>

definition initialOptions :: "'d CmdOptions" where
  "initialOptions =
     \<lparr>aliasMap = Some Map.empty, defaults = None, bucket = (\<lambda>t. None), required = [],
      description = Map.empty, hints = Map.empty\<rparr>"

definition parseCliArgs :: "(jsstring \<Rightarrow> jsstring) \<Rightarrow> 'd Arg list \<Rightarrow> 'd CmdOptions" where
  "parseCliArgs sa args =
     (if args = [] then initialOptions
      else foldl (\<lambda>options arg. argsHandle sa arg options) initialOptions args)"

text \<open>
  \<open>formatArgs\<close> tests at run time whether the first element of an entry is a string, so
  its entries are arrays of values that are strings or something else (\<open>arg.shift()\<close> of
  an empty array is \<open>undefined\<close>, which is no string). \<open>alias.pop()\<close> is \<open>undefined\<close> on an
  empty array. Both \<open>throw\<close>s end the \<open>map\<close> at once.
\<close>

datatype 'd jsvalue = JString jsstring | JOther 'd

datatype error = XWCMDError string | TypeError

type_synonym 'd FormatArgs =
  "jsstring \<times> jsstring \<times> jsstring \<times> OptionalType \<times> 'd jsvalue list"

fun joinWith :: "jschar \<Rightarrow> jsstring list \<Rightarrow> jsstring" where
  "joinWith sep [] = []"
| "joinWith sep [s] = s"
| "joinWith sep (s # t # ss) = s @ sep # joinWith sep (t # ss)"

definition formatArg :: "(jsstring \<Rightarrow> jsstring) \<Rightarrow> 'd jsvalue list \<Rightarrow> error + 'd FormatArgs" where
  "formatArg sa arg =
     (case arg of
        JString flags # rest \<Rightarrow>
          (let segs = splitFlag flags in
           if segs = [] then Inl (XWCMDError ''The args missing flag!'')
           else
             let flag = last segs; aliasArr = butlast segs;
                 (type, val) = parseType (sa flag)
             in Inr (joinWith (ch CHR '','') aliasArr, val,
                     parseByChar flag (ch CHR ''<'') (ch CHR ''>''), type, rest))
      | _ \<Rightarrow> Inl (XWCMDError ''The args definition error.''))"

fun formatArgs :: "(jsstring \<Rightarrow> jsstring) \<Rightarrow> 'd jsvalue list list \<Rightarrow> error + 'd FormatArgs list" where
  "formatArgs sa [] = Inr []"
| "formatArgs sa (arg # args) =
     (case formatArg sa arg of
        Inl e \<Rightarrow> Inl e
      | Inr r \<Rightarrow> (case formatArgs sa args of Inl e \<Rightarrow> Inl e | Inr rs \<Rightarrow> Inr (r # rs)))"

section \<open>Required-field check\<close>

text \<open>
  \<open>checkRequired\<close>: \<open>args.some(...)\<close> asks whether some token is a key of the alias object
  (an array is truthy, also when empty); the answer is dropped and nothing follows it.
  The result is the error raised, or the options and tokens as the call leaves them.
\<close>

definition checkRequired ::
  "'d CmdOptions \<Rightarrow> jsstring list \<Rightarrow> error + ('d CmdOptions \<times> jsstring list)" where
  "checkRequired options args =
     (let found = list_ex (\<lambda>a. case aliasMap options of
                                 None \<Rightarrow> False
                               | Some m \<Rightarrow> (case m a of None \<Rightarrow> False | Some names \<Rightarrow> True)) args
      in Inr (options, args))"

section \<open>Command tree\<close>

text \<open>
  Of a command, the resolver reads \<open>meta.name\<close>, \<open>meta.alias\<close> (optional in \<open>Meta\<close>) and
  \<open>subs\<close>.
\<close>

record Meta =
  meta_name :: jsstring
  meta_alias :: "jsstring list option"

datatype Command = Command (meta: Meta) (subs: "Command list")

text \<open>
  \<open>matchSubCmd\<close>: \<open>meta.alias!.concat(meta.name).some((n) => stripAnsi(n) === currentCmd)\<close>;
  \<open>concat\<close> on an \<open>undefined\<close> alias raises a \<open>TypeError\<close>.
\<close>

definition matchSubCmd :: "(jsstring \<Rightarrow> jsstring) \<Rightarrow> Meta \<Rightarrow> jsstring \<Rightarrow> error + bool" where
  "matchSubCmd sa m currentCmd =
     (case meta_alias m of
        None \<Rightarrow> Inl TypeError
      | Some names \<Rightarrow> Inr (list_ex (\<lambda>n. sa n = currentCmd) (names @ [meta_name m])))"

text \<open>
  \<open>traverseToCall\<close> pushes onto the one array \<open>argv\<close> that all its calls share, so the model
  passes \<open>argv\<close> through and returns it beside the result: \<open>None\<close> for \<open>false\<close>, the array
  otherwise. \<open>someSubCmds\<close> is the \<open>subCmds.some(...)\<close> loop, which stops at the first
  truthy answer of its callback.
\<close>

fun traverseToCall ::
  "(jsstring \<Rightarrow> jsstring) \<Rightarrow> jsstring \<Rightarrow> Command list \<Rightarrow> jsstring list
     \<Rightarrow> error + (jsstring list option \<times> jsstring list)"
and someSubCmds ::
  "(jsstring \<Rightarrow> jsstring) \<Rightarrow> jsstring \<Rightarrow> Command list \<Rightarrow> jsstring list
     \<Rightarrow> error + (bool \<times> jsstring list)" where
  "traverseToCall sa name subCmds argv =
     (case someSubCmds sa name subCmds argv of
        Inl e \<Rightarrow> Inl e
      | Inr (matched, argv1) \<Rightarrow> Inr (if matched then Some argv1 else None, argv1))"
| "someSubCmds sa name [] argv = Inr (False, argv)"
| "someSubCmds sa name (Command m ss # cmds) argv =
     (let argv1 = argv @ [meta_name m] in
      case matchSubCmd sa m name of
        Inl e \<Rightarrow> Inl e
      | Inr True \<Rightarrow> Inr (True, argv1)
      | Inr False \<Rightarrow>
          (case traverseToCall sa name ss argv1 of
             Inl e \<Rightarrow> Inl e
           | Inr (Some path, argv2) \<Rightarrow> Inr (True, argv2)
           | Inr (None, argv2) \<Rightarrow> someSubCmds sa name cmds argv2))"

section \<open>Notions the statements use\<close>

text \<open>
  What \<open>argsHandle\<close> and \<open>formatArgs\<close> make of a flags string: the canonical name and the
  type come from the last segment of \<open>splitFlag\<close> (a closing \<open>!\<close> of the name is the
  required marker), the aliases from the segments before it.
\<close>

definition flagName :: "jsstring \<Rightarrow> jsstring" where
  "flagName draftFlag =
     (let val0 = snd (parseType draftFlag)
      in if endsWith val0 (ch CHR ''!'') then butlast val0 else val0)"

definition canonicalName :: "(jsstring \<Rightarrow> jsstring) \<Rightarrow> jsstring \<Rightarrow> jsstring" where
  "canonicalName sa flags = flagName (sa (last (splitFlag flags)))"

definition canonicalType :: "(jsstring \<Rightarrow> jsstring) \<Rightarrow> jsstring \<Rightarrow> OptionalType" where
  "canonicalType sa flags = fst (parseType (sa (last (splitFlag flags))))"

definition aliasNames :: "(jsstring \<Rightarrow> jsstring) \<Rightarrow> jsstring \<Rightarrow> jsstring list" where
  "aliasNames sa flags = map (\<lambda>f. cleanArg (sa f)) (butlast (splitFlag flags))"

text \<open>The names in a bucket; a bucket never assigned holds none.\<close>

definition bucketList :: "'d CmdOptions \<Rightarrow> OptionalType \<Rightarrow> jsstring list" where
  "bucketList options t = (case bucket options t of Some names \<Rightarrow> names | None \<Rightarrow> [])"

text \<open>The alias object; one never assigned has no entry.\<close>

definition aliasesOf :: "'d CmdOptions \<Rightarrow> (jsstring \<rightharpoonup> jsstring list)" where
  "aliasesOf options = (case aliasMap options of Some m \<Rightarrow> m | None \<Rightarrow> Map.empty)"

text \<open>The defaults object, likewise.\<close>

definition defaultsOf :: "'d CmdOptions \<Rightarrow> (jsstring \<rightharpoonup> 'd)" where
  "defaultsOf options = (case defaults options of Some m \<Rightarrow> m | None \<Rightarrow> Map.empty)"

text \<open>An entry given to \<open>formatArgs\<close> whose first element is no string.\<close>

definition flagsNotString :: "'d jsvalue list \<Rightarrow> bool" where
  "flagsNotString arg = (case arg of JString flags # rest \<Rightarrow> False | _ \<Rightarrow> True)"

text \<open>
  The rest of the line: the text up to the next line terminator. A \<open><\<close> opens a hint when
  a \<open>>\<close> stands behind it on its line; a \<open>[\<close> opens a group when a \<open>]\<close> stands on its line
  with at least one character between the two. \<open>noOpener opens l u rest\<close>: in the text
  \<open>u\<close>, which \<open>rest\<close> follows, no \<open>l\<close> opens anything.
\<close>

definition lineOf :: "jsstring \<Rightarrow> jsstring" where
  "lineOf cs = takeWhile (\<lambda>c. \<not> isLineTerminator c) cs"

definition opensHint :: "jsstring \<Rightarrow> bool" where
  "opensHint cs = (ch CHR ''>'' \<in> set (lineOf cs))"


fun noOpener :: "(jsstring \<Rightarrow> bool) \<Rightarrow> jschar \<Rightarrow> jsstring \<Rightarrow> jsstring \<Rightarrow> bool" where
  "noOpener opens l [] rest = True"
| "noOpener opens l (c # u) rest = (\<not> (c = l \<and> opens (u @ rest)) \<and> noOpener opens l u rest)"

text \<open>
  The sigil claim in its own words: every angle-bracketed hint is removed, each from its
  \<open><\<close> to the next \<open>>\<close>.
\<close>

fun skipHints :: "bool \<Rightarrow> jsstring \<Rightarrow> jsstring" where
  "skipHints inside [] = []"
| "skipHints True (c # cs) = (if c = ch CHR ''>'' then skipHints False cs else skipHints True cs)"
| "skipHints False (c # cs) =
     (if c = ch CHR ''<'' \<and> ch CHR ''>'' \<in> set cs then skipHints True cs
      else c # skipHints False cs)"

definition removeEveryHint :: "jsstring \<Rightarrow> jsstring" where
  "removeEveryHint v = skipHints False v"




text \<open>A command with its aliases given, for the examples.\<close>

definition command :: "string \<Rightarrow> string list \<Rightarrow> Command list \<Rightarrow> Command" where
  "command n al ss = Command \<lparr>meta_name = js n, meta_alias = Some (map js al)\<rparr> ss"

section \<open>Flag classification\<close>

lemma isFlag_Cons: "isFlag (c # cs) = (c = 45)"
proof (cases "c = 45")
  case True
  then show ?thesis
    by (simp add: isFlag_def codePointAt_def Let_def)
next
  case False
  then have "unat c \<noteq> 45"
    by (simp add: word_unat_eq_iff)
  then show ?thesis
    using False by (auto simp add: isFlag_def codePointAt_def Let_def)
qed

text \<open>
  C10. A string whose first character is \<open>-\<close> satisfies exactly one of \<open>isShortFlag\<close> and
  \<open>isLongFlag\<close>. The one-character token \<open>-\<close> is a short flag and the separator \<open>--\<close> is a
  long flag: the recognisers themselves exclude neither.
\<close>

theorem flag_short_xor_long:
  "isShortFlag (ch CHR ''-'' # cs) \<noteq> isLongFlag (ch CHR ''-'' # cs)
   \<and> isShortFlag (js ''-'') \<and> \<not> isLongFlag (js ''-'')
   \<and> isLongFlag (js ''--'') \<and> \<not> isShortFlag (js ''--'')"
proof -
  have f: "isFlag (ch CHR ''-'' # cs)"
    by (simp add: isFlag_Cons)
  have a: "isShortFlag (ch CHR ''-'' # cs) \<noteq> isLongFlag (ch CHR ''-'' # cs)"
    using f by (simp add: isShortFlag_def isLongFlag_def)
  have b: "isShortFlag (js ''-'') \<and> \<not> isLongFlag (js ''-'')"
    by (simp add: isShortFlag_def isLongFlag_def isFlag_def codePointAt_def js_def)
  have c: "isLongFlag (js ''--'') \<and> \<not> isShortFlag (js ''--'')"
    by (simp add: isShortFlag_def isLongFlag_def isFlag_def codePointAt_def js_def)
  from a b c show ?thesis by simp
qed

section \<open>The required-field check\<close>

text \<open>
  C8. For every option schema and every token sequence \<open>checkRequired\<close> returns without
  raising an error and leaves the schema and the tokens as they were, whatever names the
  schema marks as required and whether or not the tokens mention them.
\<close>

theorem checkRequired_never_raises:
  "checkRequired options args = Inr (options, args)"
  by (simp add: checkRequired_def Let_def)

section \<open>Definition errors\<close>

lemma splitComma_nonempty: "splitComma cur s \<noteq> []"
  by (induction s arbitrary: cur) auto

lemma splitFlag_nonempty: "splitFlag val \<noteq> []"
  by (simp add: splitFlag_def splitComma_nonempty)

lemma formatArg_error:
  "flagsNotString arg \<Longrightarrow> formatArg sa arg = Inl (XWCMDError ''The args definition error.'')"
  by (auto simp add: flagsNotString_def formatArg_def split: list.splits jsvalue.splits)

lemma formatArg_ok: "\<not> flagsNotString arg \<Longrightarrow> \<exists>r. formatArg sa arg = Inr r"
  by (auto simp add: flagsNotString_def formatArg_def Let_def splitFlag_nonempty
      split: list.splits jsvalue.splits prod.splits)

lemma formatArgs_raises:
  "\<exists>arg\<in>set args. flagsNotString arg \<Longrightarrow>
   formatArgs sa args = Inl (XWCMDError ''The args definition error.'')"
proof (induction args)
  case Nil
  then show ?case by simp
next
  case (Cons a args)
  show ?case
  proof (cases "flagsNotString a")
    case True
    then show ?thesis by (simp add: formatArg_error)
  next
    case False
    then obtain r where r: "formatArg sa a = Inr r"
      using formatArg_ok by blast
    from False Cons.prems have "\<exists>arg\<in>set args. flagsNotString arg" by auto
    then show ?thesis using Cons.IH r by simp
  qed
qed

lemma formatArgs_returns:
  "\<forall>arg\<in>set args. \<not> flagsNotString arg \<Longrightarrow>
   \<exists>rs. formatArgs sa args = Inr rs \<and> length rs = length args"
proof (induction args)
  case Nil
  then show ?case by simp
next
  case (Cons a args)
  then obtain r where r: "formatArg sa a = Inr r"
    using formatArg_ok by (metis list.set_intros(1))
  from Cons obtain rs where "formatArgs sa args = Inr rs" "length rs = length args"
    by auto
  then show ?case using r by simp
qed

lemma formatArgs_raises_iff:
  "(\<exists>msg. formatArgs sa args = Inl (XWCMDError msg)) = (\<exists>arg\<in>set args. flagsNotString arg)"
proof (cases "\<exists>arg\<in>set args. flagsNotString arg")
  case True
  then show ?thesis using formatArgs_raises [of args sa] by simp
next
  case False
  then obtain rs where "formatArgs sa args = Inr rs"
    using formatArgs_returns [of args sa] by auto
  then show ?thesis using False by simp
qed

text \<open>
  C5. \<open>formatArgs\<close> raises its error exactly when the flags field of some entry is no string
  (\<open>formatArgs_raises_iff\<close>). The test for a missing flag, \<open>flag === undefined\<close>, never holds,
  because \<open>split\<close> returns at least one segment: the empty definition yields the empty
  string as its canonical segment and is compiled to a flag with the empty name, where
  the claim has the compilation fail.
\<close>

theorem formatArgs_accepts_empty_definition:
  "formatArgs id [[JString [], JString (js ''d'')]]
   = (Inr [([], [], [], TString, [JString (js ''d'')])] :: error + nat FormatArgs list)"
  by (simp add: formatArg_def splitFlag_def parseType_def sigilType_def cleanArg_def
      parseByChar_def js_def trim_def)

section \<open>The name cleaner\<close>

text \<open>
  C6. \<open>cleanArg\<close> turns every \<open>|\<close> inside a bracketed group into \<open>#\<close> before it strips the
  type suffix, but afterwards turns only the first \<open>#\<close> of the string back: of the two
  \<open>|\<close> in \<open>[a|b|c]\<close> the second stays \<open>#\<close>.
\<close>

theorem cleanArg_restores_first_only:
  "cleanArg (js ''[a|b|c]'') = js ''[a|b#c]''"
  by (simp add: cleanArg_def js_def isLineTerminator_def pipeToHash_def dotPlusEnd_def
      trim_def isWhiteSpace_def)

section \<open>The command resolver\<close>

text \<open>
  C9. \<open>traverseToCall\<close> pushes the name of every command it visits before it tests the
  command, and takes nothing back when a branch fails: with the commands \<open>a\<close> (which has
  the sub-command \<open>b\<close>) and \<open>c\<close>, the token \<open>c\<close> yields \<open>a\<close>, \<open>b\<close>, \<open>c\<close>, though the path to
  the matching command is \<open>c\<close> alone.
\<close>

theorem traverseToCall_keeps_failed_branches:
  "traverseToCall id (js ''c'')
     [command ''a'' [] [command ''b'' [] []], command ''c'' [] []] []
   = Inr (Some [js ''a'', js ''b'', js ''c''], [js ''a'', js ''b'', js ''c''])"
  by (simp add: command_def matchSubCmd_def js_def)

section \<open>The angle-bracket extractor\<close>

lemma anyStarThen_None: "(anyStarThen x cs = None) = (x \<notin> set cs)"
  by (induction cs) (auto split: option.splits)

lemma anyStarThen_notin: "x \<notin> set cs \<Longrightarrow> anyStarThen x cs = None"
  by (simp add: anyStarThen_None)

lemma matchByChar_None:
  "r \<notin> set (drop 1 (dropWhile (\<lambda>c. c \<noteq> l) val)) \<Longrightarrow> matchByChar l r val = None"
proof (induction val)
  case Nil
  then show ?case by simp
next
  case (Cons c cs)
  show ?case
  proof (cases "c = l")
    case True
    with Cons.prems have r: "r \<notin> set cs" by simp
    have "set (drop 1 (dropWhile (\<lambda>c. c \<noteq> l) cs)) \<subseteq> set cs"
      by (meson set_drop_subset set_dropWhileD subset_iff)
    with r have "r \<notin> set (drop 1 (dropWhile (\<lambda>c. c \<noteq> l) cs))" by blast
    with Cons.IH r True show ?thesis by (simp add: anyStarThen_notin)
  next
    case False
    with Cons show ?thesis by simp
  qed
qed

lemma anyStarThen_last: "x \<notin> set w \<Longrightarrow> anyStarThen x (body @ x # w) = Some (body, w)"
  by (induction body) (auto simp add: anyStarThen_notin)

lemma matchByChar_first:
  "l \<notin> set u \<Longrightarrow>
   matchByChar l r (u @ l # cs) =
     (case anyStarThen r cs of Some (body, rest) \<Rightarrow> Some body | None \<Rightarrow> matchByChar l r cs)"
  by (induction u) auto

text \<open>
  C7 (amended). For boundary symbols that stand for themselves in a regular expression,
  the defaults \<open><\<close> and \<open>>\<close> among them, \<open>parseByChar\<close> returns the substring strictly
  between the first occurrence of the opening symbol and the last occurrence of the
  closing symbol behind it, and the empty string when no closing symbol stands behind
  the first opening symbol.
\<close>

theorem parseByChar_first_to_last:
  assumes "literalSymbol l" and "literalSymbol r"
  shows "(l \<notin> set u \<and> r \<notin> set w \<longrightarrow> parseByChar (u @ l # body @ r # w) l r = body)
   \<and> (r \<notin> set (drop 1 (dropWhile (\<lambda>c. c \<noteq> l) val)) \<longrightarrow> parseByChar val l r = [])"
proof (intro conjI impI)
  assume a: "l \<notin> set u \<and> r \<notin> set w"
  then have "matchByChar l r (u @ l # body @ r # w) = Some body"
    by (simp add: matchByChar_first anyStarThen_last)
  then show "parseByChar (u @ l # body @ r # w) l r = body"
    by (simp add: parseByChar_def)
next
  assume "r \<notin> set (drop 1 (dropWhile (\<lambda>c. c \<noteq> l) val))"
  then have "matchByChar l r val = None"
    by (rule matchByChar_None)
  then show "parseByChar val l r = []"
    by (simp add: parseByChar_def)
qed

theorem parseByChar_first_to_last_witness:
  "parseByChar (js ''x <a>b<c> y'') (ch CHR ''<'') (ch CHR ''>'') = js ''a>b<c''
   \<and> parseByChar (js ''>x<'') (ch CHR ''<'') (ch CHR ''>'') = []"
proof -
  have lit: "literalSymbol (ch CHR ''<'')" "literalSymbol (ch CHR ''>'')"
    by (simp_all add: literalSymbol_def js_def)
  have d: "js ''x <a>b<c> y'' = js ''x '' @ ch CHR ''<'' # js ''a>b<c'' @ ch CHR ''>'' # js '' y''"
    by (simp add: js_def)
  have n: "ch CHR ''>'' \<notin> set (drop 1 (dropWhile (\<lambda>c. c \<noteq> ch CHR ''<'') (js ''>x<'')))"
    by (simp add: js_def)
  show ?thesis
    using parseByChar_first_to_last [OF lit, of "js ''x ''" "js '' y''" "js ''a>b<c''" "js ''>x<''"] d n
    by (simp add: js_def)
qed

text \<open>
  The claim as stated fails: in \<open><a>b<c>\<close> the first matching pair encloses \<open>a\<close>, but the
  greedy \<open>[^]*\<close> runs to the last \<open>>\<close>.
\<close>

theorem parseByChar_not_first_pair:
  "parseByChar (js ''<a>b<c>'') (ch CHR ''<'') (ch CHR ''>'') = js ''a>b<c''
   \<and> parseByChar (js ''<a>b<c>'') (ch CHR ''<'') (ch CHR ''>'') \<noteq> js ''a''"
  by (simp add: parseByChar_def js_def)

section \<open>Sigil to type\<close>

lemma dotStarThen_None_iff:
  "\<not> isLineTerminator x \<Longrightarrow> (dotStarThen x cs = None) = (x \<notin> set (lineOf cs))"
  by (induction cs) (auto simp add: lineOf_def split: option.splits)

lemma dotStarThen_SomeD:
  "\<not> isLineTerminator x \<Longrightarrow> dotStarThen x cs = Some (h, w) \<Longrightarrow>
   cs = h @ x # w \<and> (\<forall>c\<in>set h. \<not> isLineTerminator c) \<and> x \<notin> set (lineOf w)"
proof (induction cs arbitrary: h)
  case Nil
  then show ?case by simp
next
  case (Cons c cs)
  show ?case
  proof (cases "isLineTerminator c \<or> dotStarThen x cs = None")
    case True
    with Cons.prems have hw: "c = x \<and> h = [] \<and> w = cs"
      by (auto split: if_splits option.splits)
    with True Cons.prems(1) have "dotStarThen x cs = None" by auto
    then have "x \<notin> set (lineOf cs)"
      using dotStarThen_None_iff [OF Cons.prems(1), of cs] by simp
    with hw show ?thesis by simp
  next
    case False
    then obtain b r where br: "dotStarThen x cs = Some (b, r)" by auto
    with False Cons.prems have hw: "h = c # b \<and> w = r" by auto
    from br hw have "dotStarThen x cs = Some (b, w)" by simp
    from Cons.IH [OF Cons.prems(1) this] False hw show ?thesis by simp
  qed
qed

lemma dotStarThen_SomeI:
  "\<not> isLineTerminator x \<Longrightarrow> \<forall>c\<in>set h. \<not> isLineTerminator c \<Longrightarrow> x \<notin> set (lineOf w) \<Longrightarrow>
   dotStarThen x (h @ x # w) = Some (h, w)"
proof (induction h)
  case Nil
  then have "dotStarThen x w = None"
    using dotStarThen_None_iff [of x w] by simp
  then show ?case by simp
next
  case (Cons c h)
  then show ?case by simp
qed

lemma notLT_brackets:
  "\<not> isLineTerminator (ch CHR ''>'')" "\<not> isLineTerminator (ch CHR '']'')"
  by (simp_all add: isLineTerminator_def)

lemma removeHint_skip:
  "noOpener opensHint (ch CHR ''<'') u rest \<Longrightarrow> removeHint (u @ rest) = u @ removeHint rest"
proof (induction u)
  case Nil
  show ?case by simp
next
  case (Cons c u)
  then have ih: "removeHint (u @ rest) = u @ removeHint rest" by simp
  from Cons.prems have "c \<noteq> ch CHR ''<'' \<or> dotStarThen (ch CHR ''>'') (u @ rest) = None"
    using dotStarThen_None_iff [OF notLT_brackets(1), of "u @ rest"]
    by (auto simp add: opensHint_def)
  then show ?case using ih by auto
qed

lemma removeHint_at:
  "\<forall>c\<in>set h. \<not> isLineTerminator c \<Longrightarrow> ch CHR ''>'' \<notin> set (lineOf w) \<Longrightarrow>
   removeHint (ch CHR ''<'' # h @ ch CHR ''>'' # w) = w"
  using dotStarThen_SomeI [OF notLT_brackets(1), of h w] by simp

lemma removeHint_found:
  assumes "noOpener opensHint (ch CHR ''<'') u (ch CHR ''<'' # h @ ch CHR ''>'' # w)"
    and "\<forall>c\<in>set h. \<not> isLineTerminator c" and "ch CHR ''>'' \<notin> set (lineOf w)"
  shows "removeHint (u @ ch CHR ''<'' # h @ ch CHR ''>'' # w) = u @ w"
  using removeHint_skip [OF assms(1)] removeHint_at [OF assms(2,3)] by simp

lemma removeHint_none:
  "noOpener opensHint (ch CHR ''<'') v [] \<Longrightarrow> removeHint v = v"
  using removeHint_skip [of v "[]"] by simp

lemma line_last_occurrence:
  assumes "\<not> isLineTerminator x" and "x \<in> set (lineOf cs)"
  shows "\<exists>h w. cs = h @ x # w \<and> (\<forall>c\<in>set h. \<not> isLineTerminator c) \<and> x \<notin> set (lineOf w)"
proof -
  from assms have "dotStarThen x cs \<noteq> None"
    using dotStarThen_None_iff [of x cs] by simp
  then obtain h w where "dotStarThen x cs = Some (h, w)" by auto
  from dotStarThen_SomeD [OF assms(1) this] show ?thesis by blast
qed

lemma hint_cases:
  "noOpener opensHint (ch CHR ''<'') v [] \<or>
   (\<exists>u h w. v = u @ ch CHR ''<'' # h @ ch CHR ''>'' # w
      \<and> noOpener opensHint (ch CHR ''<'') u (ch CHR ''<'' # h @ ch CHR ''>'' # w)
      \<and> (\<forall>c\<in>set h. \<not> isLineTerminator c) \<and> ch CHR ''>'' \<notin> set (lineOf w))"
proof (induction v)
  case Nil
  show ?case by simp
next
  case (Cons c v)
  show ?case
  proof (cases "c = ch CHR ''<'' \<and> opensHint v")
    case True
    then obtain h w where
      "v = h @ ch CHR ''>'' # w \<and> (\<forall>c\<in>set h. \<not> isLineTerminator c) \<and> ch CHR ''>'' \<notin> set (lineOf w)"
      using line_last_occurrence [OF notLT_brackets(1), of v] by (auto simp add: opensHint_def)
    with True have "c # v = [] @ ch CHR ''<'' # h @ ch CHR ''>'' # w
      \<and> noOpener opensHint (ch CHR ''<'') [] (ch CHR ''<'' # h @ ch CHR ''>'' # w)
      \<and> (\<forall>c\<in>set h. \<not> isLineTerminator c) \<and> ch CHR ''>'' \<notin> set (lineOf w)"
      by simp
    then show ?thesis by blast
  next
    case False
    from Cons.IH show ?thesis
    proof
      assume "noOpener opensHint (ch CHR ''<'') v []"
      with False show ?thesis by auto
    next
      assume "\<exists>u h w. v = u @ ch CHR ''<'' # h @ ch CHR ''>'' # w
        \<and> noOpener opensHint (ch CHR ''<'') u (ch CHR ''<'' # h @ ch CHR ''>'' # w)
        \<and> (\<forall>c\<in>set h. \<not> isLineTerminator c) \<and> ch CHR ''>'' \<notin> set (lineOf w)"
      then obtain u h w where d: "v = u @ ch CHR ''<'' # h @ ch CHR ''>'' # w"
        and n: "noOpener opensHint (ch CHR ''<'') u (ch CHR ''<'' # h @ ch CHR ''>'' # w)"
        and r: "(\<forall>c\<in>set h. \<not> isLineTerminator c) \<and> ch CHR ''>'' \<notin> set (lineOf w)"
        by blast
      from False d n have "noOpener opensHint (ch CHR ''<'') (c # u) (ch CHR ''<'' # h @ ch CHR ''>'' # w)"
        by auto
      moreover from d have "c # v = (c # u) @ ch CHR ''<'' # h @ ch CHR ''>'' # w" by simp
      ultimately show ?thesis using r by blast
    qed
  qed
qed

lemma sigilType_cases:
  "(sigilType s = TNumber \<longleftrightarrow> take 1 s = js ''-'')
   \<and> (sigilType s = TBoolean \<longleftrightarrow> take 1 s = js ''!'')
   \<and> (sigilType s = TArray \<longleftrightarrow> take 1 s = js ''.'')
   \<and> (sigilType s = TString \<longleftrightarrow> take 1 s \<notin> {js ''-'', js ''!'', js ''.''})"
  by (cases s) (simp_all add: sigilType_def js_def)

text \<open>
  C3 (amended). \<open>parseType\<close> removes from the token the text from the first \<open><\<close> that has a
  \<open>>\<close> behind it on its line through the last \<open>>\<close> on that line, and nothing when there is
  no such \<open><\<close>; every token is of one of these two forms. The type is number exactly
  when the first character of what is left is \<open>-\<close>, boolean exactly when it is \<open>!\<close>, array
  exactly when it is \<open>.\<close>, and string in every other case, the empty string among them.
\<close>

theorem parseType_sigil:
  "(noOpener opensHint (ch CHR ''<'') u (ch CHR ''<'' # h @ ch CHR ''>'' # w)
      \<and> (\<forall>c\<in>set h. \<not> isLineTerminator c) \<and> ch CHR ''>'' \<notin> set (lineOf w)
     \<longrightarrow> fst (parseType (u @ ch CHR ''<'' # h @ ch CHR ''>'' # w)) = sigilType (u @ w))
   \<and> (noOpener opensHint (ch CHR ''<'') v [] \<longrightarrow> fst (parseType v) = sigilType v)
   \<and> (noOpener opensHint (ch CHR ''<'') v [] \<or>
       (\<exists>u h w. v = u @ ch CHR ''<'' # h @ ch CHR ''>'' # w
          \<and> noOpener opensHint (ch CHR ''<'') u (ch CHR ''<'' # h @ ch CHR ''>'' # w)
          \<and> (\<forall>c\<in>set h. \<not> isLineTerminator c) \<and> ch CHR ''>'' \<notin> set (lineOf w)))
   \<and> (sigilType s = TNumber \<longleftrightarrow> take 1 s = js ''-'')
   \<and> (sigilType s = TBoolean \<longleftrightarrow> take 1 s = js ''!'')
   \<and> (sigilType s = TArray \<longleftrightarrow> take 1 s = js ''.'')
   \<and> (sigilType s = TString \<longleftrightarrow> take 1 s \<notin> {js ''-'', js ''!'', js ''.''})"
proof -
  have a: "noOpener opensHint (ch CHR ''<'') u (ch CHR ''<'' # h @ ch CHR ''>'' # w)
      \<and> (\<forall>c\<in>set h. \<not> isLineTerminator c) \<and> ch CHR ''>'' \<notin> set (lineOf w)
     \<longrightarrow> fst (parseType (u @ ch CHR ''<'' # h @ ch CHR ''>'' # w)) = sigilType (u @ w)"
    using removeHint_found [of u h w] by (simp add: parseType_def)
  have b: "noOpener opensHint (ch CHR ''<'') v [] \<longrightarrow> fst (parseType v) = sigilType v"
    using removeHint_none [of v] by (simp add: parseType_def)
  from a b hint_cases [of v] sigilType_cases [of s] show ?thesis by blast
qed

theorem parseType_sigil_witness:
  "fst (parseType (js ''!mean! <hint>'')) = TBoolean
   \<and> fst (parseType (js ''-size'')) = TNumber"
proof -
  have a: "noOpener opensHint (ch CHR ''<'') (js ''!mean! '') (ch CHR ''<'' # js ''hint'' @ ch CHR ''>'' # [])
      \<and> (\<forall>c\<in>set (js ''hint''). \<not> isLineTerminator c) \<and> ch CHR ''>'' \<notin> set (lineOf [])"
    by (simp add: opensHint_def lineOf_def js_def isLineTerminator_def)
  have b: "noOpener opensHint (ch CHR ''<'') (js ''-size'') []"
    by (simp add: opensHint_def lineOf_def js_def isLineTerminator_def)
  have "fst (parseType (js ''!mean! '' @ ch CHR ''<'' # js ''hint'' @ ch CHR ''>'' # []))
      = sigilType (js ''!mean! '' @ [])"
    using a parseType_sigil [of "js ''!mean! ''" "js ''hint''" "[]"] by blast
  then have 1: "fst (parseType (js ''!mean! <hint>'')) = TBoolean"
    by (simp add: js_def sigilType_def)
  have "fst (parseType (js ''-size'')) = sigilType (js ''-size'')"
    using b parseType_sigil [of _ _ _ "js ''-size''"] by blast
  then have 2: "fst (parseType (js ''-size'')) = TNumber"
    by (simp add: js_def sigilType_def)
  from 1 2 show ?thesis by simp
qed

text \<open>
  The claim as stated fails: with the hints \<open><a>\<close> and \<open><b>\<close> removed, \<open><a>-x<b>\<close> starts with
  \<open>-\<close>; but the greedy \<open>.*\<close> runs from the first \<open><\<close> to the last \<open>>\<close>, nothing is left and the
  type is string.
\<close>

theorem parseType_hint_is_greedy:
  "fst (parseType (js ''<a>-x<b>'')) = TString
   \<and> sigilType (removeEveryHint (js ''<a>-x<b>'')) = TNumber"
  by (simp add: parseType_def sigilType_def removeEveryHint_def js_def isLineTerminator_def)

section \<open>What one entry registers\<close>

declare argsHandleEach.simps(2) [simp del]

lemma argsHandleEach_butlast:
  "segs \<noteq> [] \<Longrightarrow>
   argsHandleEach sa desc dv acc segs options =
   argsHandleEach sa desc dv (acc @ map (\<lambda>f. cleanArg (sa f)) (butlast segs)) [last segs] options"
proof (induction segs arbitrary: acc)
  case Nil
  then show ?case by simp
next
  case (Cons f fs)
  show ?case
  proof (cases "fs = []")
    case True
    then show ?thesis by simp
  next
    case False
    then have "argsHandleEach sa desc dv acc (f # fs) options =
        argsHandleEach sa desc dv (acc @ [cleanArg (sa f)]) fs options"
      by (simp add: argsHandleEach.simps(2) Let_def)
    also have "\<dots> = argsHandleEach sa desc dv
        ((acc @ [cleanArg (sa f)]) @ map (\<lambda>f. cleanArg (sa f)) (butlast fs)) [last fs] options"
      using False by (rule Cons.IH)
    finally show ?thesis using False by simp
  qed
qed

lemma single_bucket:
  "bucket (argsHandleEach sa desc dv acc [f] options) =
   (bucket options)(fst (parseType (sa f)) :=
      Some (bucketList options (fst (parseType (sa f))) @ [flagName (sa f)]))"
  by (simp add: argsHandleEach.simps(2) Let_def bucketList_def flagName_def
      split: prod.splits option.splits)

lemma single_aliasMap:
  "aliasMap (argsHandleEach sa desc dv acc [f] options) =
   Some (objSet (aliasesOf options) (flagName (sa f)) acc)"
  by (simp add: argsHandleEach.simps(2) Let_def flagName_def aliasesOf_def
      split: prod.splits option.splits)

lemma single_defaults:
  "defaults (argsHandleEach sa desc dv acc [f] options) =
   (case dv of
      Some d \<Rightarrow> Some (objSet (defaultsOf options) (flagName (sa f)) d)
    | None \<Rightarrow> defaults options)"
  by (simp add: argsHandleEach.simps(2) Let_def flagName_def defaultsOf_def
      split: prod.splits option.splits)

lemma argsHandle_bucket:
  "bucket (argsHandle sa (flags, desc, dv) options) =
   (bucket options)(canonicalType sa flags :=
      Some (bucketList options (canonicalType sa flags) @ [canonicalName sa flags]))"
  by (simp add: argsHandle_def argsHandleEach_butlast [OF splitFlag_nonempty] single_bucket
      canonicalType_def canonicalName_def)

lemma argsHandle_aliasMap:
  "aliasMap (argsHandle sa (flags, desc, dv) options) =
   Some (objSet (aliasesOf options) (canonicalName sa flags) (aliasNames sa flags))"
  by (simp add: argsHandle_def argsHandleEach_butlast [OF splitFlag_nonempty] single_aliasMap
      aliasNames_def canonicalName_def)

lemma argsHandle_defaults:
  "defaults (argsHandle sa (flags, desc, dv) options) =
   (case dv of
      Some d \<Rightarrow> Some (objSet (defaultsOf options) (canonicalName sa flags) d)
    | None \<Rightarrow> defaults options)"
  by (simp add: argsHandle_def argsHandleEach_butlast [OF splitFlag_nonempty] single_defaults
      canonicalName_def split: option.splits)

lemma bucketList_argsHandle:
  "bucketList (argsHandle sa a options) t =
   bucketList options t @
     (if canonicalType sa (fst a) = t then [canonicalName sa (fst a)] else [])"
proof (cases a)
  case (fields flags desc dv)
  show ?thesis
    unfolding fields bucketList_def [of "argsHandle sa (flags, desc, dv) options"]
    by (simp add: argsHandle_bucket bucketList_def)
qed


lemma aliasesOf_argsHandle:
  "aliasesOf (argsHandle sa a options) =
   objSet (aliasesOf options) (canonicalName sa (fst a)) (aliasNames sa (fst a))"
  by (cases a) (simp add: aliasesOf_def [of "argsHandle sa _ options"] argsHandle_aliasMap)

lemmas evalStrings = js_def isLineTerminator_def isWhiteSpace_def trim_def pipeToHash_def
  dotPlusEnd_def endsWith_def

lemma names_r_recursive:
  "canonicalName id (js ''r,!recursive'') = js ''recursive''"
  "canonicalType id (js ''r,!recursive'') = TBoolean"
  "aliasNames id (js ''r,!recursive'') = [js ''r'']"
  by (simp_all add: canonicalName_def canonicalType_def aliasNames_def flagName_def
      splitFlag_def parseType_def sigilType_def cleanArg_def evalStrings)

lemma names_flag_hint:
  "canonicalName id (js ''flag! <h>'') = js ''flag''"
  "canonicalType id (js ''flag! <h>'') = TString"
  "aliasNames id (js ''flag! <h>'') = []"
  by (simp_all add: canonicalName_def canonicalType_def aliasNames_def flagName_def
      splitFlag_def parseType_def sigilType_def cleanArg_def evalStrings)

lemma names_proto:
  "canonicalName id (js ''__proto__'') = js ''__proto__''"
  "canonicalType id (js ''__proto__'') = TString"
  "aliasNames id (js ''__proto__'') = []"
  "canonicalName id (js ''p,__proto__'') = js ''__proto__''"
  "canonicalType id (js ''p,__proto__'') = TString"
  "aliasNames id (js ''p,__proto__'') = [js ''p'']"
  by (simp_all add: canonicalName_def canonicalType_def aliasNames_def flagName_def
      splitFlag_def parseType_def sigilType_def cleanArg_def evalStrings)

lemma names_shared_alias:
  "canonicalName id (js ''x,a'') = js ''a''"
  "aliasNames id (js ''x,a'') = [js ''x'']"
  "canonicalName id (js ''x,b'') = js ''b''"
  "aliasNames id (js ''x,b'') = [js ''x'']"
  by (simp_all add: canonicalName_def canonicalType_def aliasNames_def flagName_def
      splitFlag_def parseType_def sigilType_def cleanArg_def evalStrings)

lemma names_a:
  "canonicalName id (js ''a'') = js ''a''"
  "canonicalType id (js ''a'') = TString"
  "canonicalName id (js ''!a'') = js ''a''"
  "canonicalType id (js ''!a'') = TBoolean"
  by (simp_all add: canonicalName_def canonicalType_def flagName_def
      splitFlag_def parseType_def sigilType_def cleanArg_def evalStrings)

text \<open>
  C1 (amended). For every flag entry that \<open>argsHandle\<close> compiles, the canonical name, taken
  from the last comma segment, is appended to the bucket of its resolved type and no
  other bucket changes. When the canonical name is not \<open>__proto__\<close>, the alias object
  records, under the canonical name, the list of the cleaned alias segments, and the
  default value is recorded under the canonical name when a third element is supplied,
  while the defaults stay as they were when it is not.
\<close>

theorem argsHandle_registers:
  "bucket (argsHandle sa (flags, desc, dv) options) =
     (bucket options)(canonicalType sa flags :=
        Some (bucketList options (canonicalType sa flags) @ [canonicalName sa flags]))
   \<and> (canonicalName sa flags \<noteq> js ''__proto__'' \<longrightarrow>
        aliasMap (argsHandle sa (flags, desc, dv) options) =
          Some ((aliasesOf options)(canonicalName sa flags \<mapsto> aliasNames sa flags))
        \<and> defaults (argsHandle sa (flags, desc, dv) options) =
          (case dv of
             Some d \<Rightarrow> Some ((defaultsOf options)(canonicalName sa flags \<mapsto> d))
           | None \<Rightarrow> defaults options))"
  using argsHandle_bucket [of sa flags desc dv options]
    argsHandle_aliasMap [of sa flags desc dv options]
    argsHandle_defaults [of sa flags desc dv options]
  by (simp add: objSet_def split: option.splits)

theorem argsHandle_registers_witness:
  "aliasMap (argsHandle id (js ''r,!recursive'', Some (js ''desc''), Some (3::nat)) initialOptions)
     = Some [js ''recursive'' \<mapsto> [js ''r'']]
   \<and> defaults (argsHandle id (js ''r,!recursive'', Some (js ''desc''), Some (3::nat)) initialOptions)
     = Some [js ''recursive'' \<mapsto> 3]"
proof -
  have n: "canonicalName id (js ''r,!recursive'') \<noteq> js ''__proto__''"
    by (simp add: names_r_recursive) (simp add: js_def)
  from n argsHandle_registers [of id "js ''r,!recursive''" "Some (js ''desc'')" "Some (3::nat)"
      initialOptions]
  show ?thesis
    by (simp add: names_r_recursive aliasesOf_def defaultsOf_def initialOptions_def)
qed

text \<open>
  The claim as stated fails twice. The alias object is keyed by the canonical name and
  holds the array of aliases: after \<open>r,!recursive\<close> it has no entry for the alias \<open>r\<close>. And
  for the canonical name \<open>__proto__\<close> the assignment creates no entry: a default value is
  supplied and none is recorded.
\<close>

theorem argsHandle_alias_keyed_by_name:
  "aliasesOf (argsHandle id (js ''r,!recursive'', Some (js ''desc''), None :: nat option)
      initialOptions) (js ''r'') = None
   \<and> aliasesOf (argsHandle id (js ''r,!recursive'', Some (js ''desc''), None :: nat option)
      initialOptions) (js ''recursive'') = Some [js ''r'']
   \<and> bucketList (argsHandle id (js ''__proto__'', Some (js ''d''), Some (3::nat))
      initialOptions) TString = [js ''__proto__'']
   \<and> defaultsOf (argsHandle id (js ''__proto__'', Some (js ''d''), Some (3::nat))
      initialOptions) (js ''__proto__'') = None"
proof -
  have r: "js ''r'' \<noteq> js ''recursive''" "js ''recursive'' \<noteq> js ''__proto__''"
    by (simp_all add: js_def)
  show ?thesis
    using r bucketList_argsHandle [of id "(js ''__proto__'', Some (js ''d''), Some (3::nat))"
        initialOptions]
    by (simp add: aliasesOf_argsHandle defaultsOf_def argsHandle_defaults objSet_def
        names_r_recursive names_proto)
      (simp add: aliasesOf_def defaultsOf_def bucketList_def initialOptions_def)
qed

section \<open>Splitting a flags string\<close>

























section \<open>The compiled schema\<close>

lemma bucketList_foldl:
  "bucketList (foldl (\<lambda>options arg. argsHandle sa arg options) options args) t =
   bucketList options t @
     map (\<lambda>a. canonicalName sa (fst a)) (filter (\<lambda>a. canonicalType sa (fst a) = t) args)"
  by (induction args arbitrary: options) (simp_all add: bucketList_argsHandle)

lemma bucketList_parseCliArgs:
  "bucketList (parseCliArgs sa args) t =
   map (\<lambda>a. canonicalName sa (fst a)) (filter (\<lambda>a. canonicalType sa (fst a) = t) args)"
  by (simp add: parseCliArgs_def bucketList_foldl) (simp add: bucketList_def initialOptions_def)

lemma buckets_disjoint:
  assumes "distinct (map (\<lambda>a. canonicalName sa (fst a)) args)" and "t \<noteq> t'"
  shows "set (bucketList (parseCliArgs sa args) t) \<inter> set (bucketList (parseCliArgs sa args) t') = {}"
proof -
  from assms(1) have inj: "inj_on (\<lambda>a. canonicalName sa (fst a)) (set args)"
    by (simp add: distinct_map)
  show ?thesis
    using assms(2) inj by (auto simp add: bucketList_parseCliArgs dest: inj_onD)
qed

lemma bucket_distinct:
  assumes "distinct (map (\<lambda>a. canonicalName sa (fst a)) args)"
  shows "distinct (bucketList (parseCliArgs sa args) t)"
  using assms by (simp add: bucketList_parseCliArgs distinct_map_filter)

lemma types_all: "t = TString \<or> t = TBoolean \<or> t = TNumber \<or> t = TArray"
  by (cases t) simp_all


lemma aliasesOf_foldl_dom:
  "\<forall>a\<in>set args. canonicalName sa (fst a) \<noteq> js ''__proto__'' \<Longrightarrow>
   dom (aliasesOf (foldl (\<lambda>options arg. argsHandle sa arg options) options args)) =
   dom (aliasesOf options) \<union> (\<lambda>a. canonicalName sa (fst a)) ` set args"
  by (induction args arbitrary: options) (auto simp add: aliasesOf_argsHandle objSet_def)

lemma aliasesOf_foldl_other:
  "n \<notin> (\<lambda>a. canonicalName sa (fst a)) ` set args \<Longrightarrow>
   aliasesOf (foldl (\<lambda>options arg. argsHandle sa arg options) options args) n =
   aliasesOf options n"
  by (induction args arbitrary: options) (auto simp add: aliasesOf_argsHandle objSet_def)

lemma aliasesOf_foldl_entry:
  "distinct (map (\<lambda>a. canonicalName sa (fst a)) args) \<Longrightarrow> a \<in> set args \<Longrightarrow>
   canonicalName sa (fst a) \<noteq> js ''__proto__'' \<Longrightarrow>
   aliasesOf (foldl (\<lambda>options arg. argsHandle sa arg options) options args)
     (canonicalName sa (fst a)) = Some (aliasNames sa (fst a))"
proof (induction args arbitrary: options)
  case Nil
  then show ?case by simp
next
  case (Cons x xs)
  show ?case
  proof (cases "a \<in> set xs")
    case True
    with Cons show ?thesis by simp
  next
    case False
    with Cons.prems have ax: "a = x" by simp
    from Cons.prems(1) have "canonicalName sa (fst x) \<notin> (\<lambda>a. canonicalName sa (fst a)) ` set xs"
      by simp
    then show ?thesis
      using Cons.prems(3) unfolding ax
      by (simp add: aliasesOf_foldl_other aliasesOf_argsHandle objSet_def)
  qed
qed

lemma aliasesOf_parseCliArgs_dom:
  "\<forall>a\<in>set args. canonicalName sa (fst a) \<noteq> js ''__proto__'' \<Longrightarrow>
   dom (aliasesOf (parseCliArgs sa args)) = (\<lambda>a. canonicalName sa (fst a)) ` set args"
  by (simp add: parseCliArgs_def aliasesOf_foldl_dom) (simp add: aliasesOf_def initialOptions_def)

lemma aliasesOf_parseCliArgs_entry:
  "distinct (map (\<lambda>a. canonicalName sa (fst a)) args) \<Longrightarrow> a \<in> set args \<Longrightarrow>
   canonicalName sa (fst a) \<noteq> js ''__proto__'' \<Longrightarrow>
   aliasesOf (parseCliArgs sa args) (canonicalName sa (fst a)) = Some (aliasNames sa (fst a))"
  by (auto simp add: parseCliArgs_def aliasesOf_foldl_entry)

lemma alias_under_one_name:
  assumes d: "distinct (map (\<lambda>a. canonicalName sa (fst a)) args)"
    and p: "\<forall>a\<in>set args. canonicalName sa (fst a) \<noteq> js ''__proto__''"
    and s: "\<forall>a\<in>set args. \<forall>b\<in>set args. canonicalName sa (fst a) \<noteq> canonicalName sa (fst b) \<longrightarrow>
              set (aliasNames sa (fst a)) \<inter> set (aliasNames sa (fst b)) = {}"
    and a: "a \<in> set args" and x: "x \<in> set (aliasNames sa (fst a))"
  shows "(\<exists>l. aliasesOf (parseCliArgs sa args) n = Some l \<and> x \<in> set l)
          \<longleftrightarrow> n = canonicalName sa (fst a)"
proof
  assume "\<exists>l. aliasesOf (parseCliArgs sa args) n = Some l \<and> x \<in> set l"
  then obtain l where l: "aliasesOf (parseCliArgs sa args) n = Some l" "x \<in> set l" by blast
  then have "n \<in> dom (aliasesOf (parseCliArgs sa args))" by auto
  then obtain b where b: "b \<in> set args" "n = canonicalName sa (fst b)"
    using aliasesOf_parseCliArgs_dom [OF p] by auto
  from aliasesOf_parseCliArgs_entry [OF d b(1)] p b l have "l = aliasNames sa (fst b)"
    by simp
  with l x have "x \<in> set (aliasNames sa (fst a)) \<inter> set (aliasNames sa (fst b))" by simp
  with s a b(1) have "canonicalName sa (fst a) = canonicalName sa (fst b)" by blast
  with b show "n = canonicalName sa (fst a)" by simp
next
  assume "n = canonicalName sa (fst a)"
  then show "\<exists>l. aliasesOf (parseCliArgs sa args) n = Some l \<and> x \<in> set l"
    using aliasesOf_parseCliArgs_entry [OF d a] p a x by simp
qed

lemma buckets_hold_names:
  "set (concat (map (bucketList (parseCliArgs sa args)) [TString, TBoolean, TNumber, TArray]))
        = (\<lambda>a. canonicalName sa (fst a)) ` set args"
proof -
  have univ: "{TString, TBoolean, TNumber, TArray} = (UNIV :: OptionalType set)"
    using types_all by auto
  have "set (concat (map (bucketList (parseCliArgs sa args)) [TString, TBoolean, TNumber, TArray]))
        = (\<Union>t\<in>{TString, TBoolean, TNumber, TArray}. set (bucketList (parseCliArgs sa args) t))"
    by auto
  also have "\<dots> = (\<Union>t. set (bucketList (parseCliArgs sa args) t))"
    unfolding univ by simp
  also have "\<dots> = (\<lambda>a. canonicalName sa (fst a)) ` set args"
    by (auto simp add: bucketList_parseCliArgs)
  finally show ?thesis .
qed

text \<open>
  C4 (amended). When the entries compiled by \<open>parseCliArgs\<close> have pairwise distinct canonical
  names, every canonical name is in the bucket of its type and in no other bucket, no
  name occurs twice in the four buckets, and the buckets hold the canonical names and
  nothing else. When, moreover, no canonical name is \<open>__proto__\<close>, the alias object has one
  entry for each canonical name, the list of that name's aliases; and when no alias is
  shared by two entries, every alias is listed under exactly one canonical name.
\<close>

theorem parseCliArgs_distinct_names:
  assumes "distinct (map (\<lambda>a. canonicalName sa (fst a)) args)"
  shows "(\<forall>a\<in>set args. \<forall>t.
            canonicalName sa (fst a) \<in> set (bucketList (parseCliArgs sa args) t)
              \<longleftrightarrow> t = canonicalType sa (fst a))
    \<and> distinct (concat (map (bucketList (parseCliArgs sa args))
                   [TString, TBoolean, TNumber, TArray]))
    \<and> set (concat (map (bucketList (parseCliArgs sa args))
              [TString, TBoolean, TNumber, TArray]))
        = (\<lambda>a. canonicalName sa (fst a)) ` set args
    \<and> ((\<forall>a\<in>set args. canonicalName sa (fst a) \<noteq> js ''__proto__'') \<longrightarrow>
         dom (aliasesOf (parseCliArgs sa args)) = (\<lambda>a. canonicalName sa (fst a)) ` set args
         \<and> (\<forall>a\<in>set args. aliasesOf (parseCliArgs sa args) (canonicalName sa (fst a))
               = Some (aliasNames sa (fst a)))
         \<and> ((\<forall>a\<in>set args. \<forall>b\<in>set args.
                canonicalName sa (fst a) \<noteq> canonicalName sa (fst b) \<longrightarrow>
                set (aliasNames sa (fst a)) \<inter> set (aliasNames sa (fst b)) = {}) \<longrightarrow>
             (\<forall>a\<in>set args. \<forall>x\<in>set (aliasNames sa (fst a)). \<forall>n.
                (\<exists>l. aliasesOf (parseCliArgs sa args) n = Some l \<and> x \<in> set l)
                  \<longleftrightarrow> n = canonicalName sa (fst a))))"
proof (intro conjI impI ballI allI)
  fix a t
  assume a: "a \<in> set args"
  from assms have inj: "inj_on (\<lambda>a. canonicalName sa (fst a)) (set args)"
    by (simp add: distinct_map)
  show "canonicalName sa (fst a) \<in> set (bucketList (parseCliArgs sa args) t)
          \<longleftrightarrow> t = canonicalType sa (fst a)"
    using a inj by (auto simp add: bucketList_parseCliArgs dest: inj_onD)
next
  show "distinct (concat (map (bucketList (parseCliArgs sa args))
                   [TString, TBoolean, TNumber, TArray]))"
    using bucket_distinct [OF assms] buckets_disjoint [OF assms]
    by (simp add: Int_Un_distrib)
next
  show "set (concat (map (bucketList (parseCliArgs sa args))
              [TString, TBoolean, TNumber, TArray]))
        = (\<lambda>a. canonicalName sa (fst a)) ` set args"
    by (rule buckets_hold_names)
next
  assume "\<forall>a\<in>set args. canonicalName sa (fst a) \<noteq> js ''__proto__''"
  then show "dom (aliasesOf (parseCliArgs sa args)) = (\<lambda>a. canonicalName sa (fst a)) ` set args"
    by (rule aliasesOf_parseCliArgs_dom)
next
  fix a
  assume "\<forall>a\<in>set args. canonicalName sa (fst a) \<noteq> js ''__proto__''" and "a \<in> set args"
  then show "aliasesOf (parseCliArgs sa args) (canonicalName sa (fst a))
               = Some (aliasNames sa (fst a))"
    using aliasesOf_parseCliArgs_entry [OF assms, of a] by blast
next
  fix a x n
  assume "\<forall>a\<in>set args. canonicalName sa (fst a) \<noteq> js ''__proto__''"
    and "\<forall>a\<in>set args. \<forall>b\<in>set args.
                canonicalName sa (fst a) \<noteq> canonicalName sa (fst b) \<longrightarrow>
                set (aliasNames sa (fst a)) \<inter> set (aliasNames sa (fst b)) = {}"
    and "a \<in> set args" and "x \<in> set (aliasNames sa (fst a))"
  then show "(\<exists>l. aliasesOf (parseCliArgs sa args) n = Some l \<and> x \<in> set l)
                  \<longleftrightarrow> n = canonicalName sa (fst a)"
    by (rule alias_under_one_name [OF assms])
qed

theorem parseCliArgs_distinct_names_witness:
  "distinct (concat (map (bucketList (parseCliArgs id
        [(js ''r,!recursive'', Some (js ''desc''), None), (js ''flag! <h>'', None, Some (3::nat))]))
        [TString, TBoolean, TNumber, TArray]))
   \<and> dom (aliasesOf (parseCliArgs id
        [(js ''r,!recursive'', Some (js ''desc''), None), (js ''flag! <h>'', None, Some (3::nat))]))
      = {js ''recursive'', js ''flag''}
   \<and> (\<exists>l. aliasesOf (parseCliArgs id
        [(js ''r,!recursive'', Some (js ''desc''), None), (js ''flag! <h>'', None, Some (3::nat))])
          (js ''recursive'') = Some l \<and> js ''r'' \<in> set l)"
proof -
  have ne: "js ''recursive'' \<noteq> js ''flag''" "js ''recursive'' \<noteq> js ''__proto__''"
    "js ''flag'' \<noteq> js ''__proto__''"
    by (simp_all add: js_def)
  have d: "distinct (map (\<lambda>a. canonicalName id (fst a))
      [(js ''r,!recursive'', Some (js ''desc''), None), (js ''flag! <h>'', None, Some (3::nat))])"
    using ne by (simp add: names_r_recursive names_flag_hint)
  have p: "\<forall>a\<in>set [(js ''r,!recursive'', Some (js ''desc''), None),
        (js ''flag! <h>'', None, Some (3::nat))]. canonicalName id (fst a) \<noteq> js ''__proto__''"
    using ne by (simp add: names_r_recursive names_flag_hint)
  have s: "\<forall>a\<in>set [(js ''r,!recursive'', Some (js ''desc''), None),
        (js ''flag! <h>'', None, Some (3::nat))].
      \<forall>b\<in>set [(js ''r,!recursive'', Some (js ''desc''), None),
        (js ''flag! <h>'', None, Some (3::nat))].
      canonicalName id (fst a) \<noteq> canonicalName id (fst b) \<longrightarrow>
      set (aliasNames id (fst a)) \<inter> set (aliasNames id (fst b)) = {}"
    by (simp add: names_r_recursive names_flag_hint)
  note t = parseCliArgs_distinct_names [OF d]
  from t have 1: "distinct (concat (map (bucketList (parseCliArgs id
        [(js ''r,!recursive'', Some (js ''desc''), None), (js ''flag! <h>'', None, Some (3::nat))]))
        [TString, TBoolean, TNumber, TArray]))"
    by blast
  from t p have "dom (aliasesOf (parseCliArgs id
        [(js ''r,!recursive'', Some (js ''desc''), None), (js ''flag! <h>'', None, Some (3::nat))]))
      = (\<lambda>a. canonicalName id (fst a)) ` set [(js ''r,!recursive'', Some (js ''desc''), None),
        (js ''flag! <h>'', None, Some (3::nat))]"
    by blast
  then have 2: "dom (aliasesOf (parseCliArgs id
        [(js ''r,!recursive'', Some (js ''desc''), None), (js ''flag! <h>'', None, Some (3::nat))]))
      = {js ''recursive'', js ''flag''}"
    by (simp add: names_r_recursive names_flag_hint)
  from t p s have "\<forall>a\<in>set [(js ''r,!recursive'', Some (js ''desc''), None),
        (js ''flag! <h>'', None, Some (3::nat))]. \<forall>x\<in>set (aliasNames id (fst a)). \<forall>n.
      (\<exists>l. aliasesOf (parseCliArgs id
        [(js ''r,!recursive'', Some (js ''desc''), None), (js ''flag! <h>'', None, Some (3::nat))])
          n = Some l \<and> x \<in> set l) \<longleftrightarrow> n = canonicalName id (fst a)"
    by blast
  then have 3: "\<exists>l. aliasesOf (parseCliArgs id
        [(js ''r,!recursive'', Some (js ''desc''), None), (js ''flag! <h>'', None, Some (3::nat))])
          (js ''recursive'') = Some l \<and> js ''r'' \<in> set l"
    by (simp add: names_r_recursive names_flag_hint)
  from 1 2 3 show ?thesis by blast
qed

text \<open>
  The claim as stated fails in three ways. Nothing keeps two entries from sharing a
  canonical name: after the entries \<open>a\<close> and \<open>!a\<close> the name \<open>a\<close> is in the string bucket and
  in the boolean bucket. Nothing keeps two entries from sharing an alias: after \<open>x,a\<close> and
  \<open>x,b\<close> the alias \<open>x\<close> is listed under \<open>a\<close> and under \<open>b\<close>. And after \<open>p,__proto__\<close> the name
  \<open>__proto__\<close> is in the string bucket while the alias object has no entry, so that the
  alias \<open>p\<close> is listed under no name.
\<close>

theorem parseCliArgs_name_in_two_buckets:
  "bucketList (parseCliArgs id [(js ''a'', None, None :: nat option), (js ''!a'', None, None)])
      TString = [js ''a'']
   \<and> bucketList (parseCliArgs id [(js ''a'', None, None :: nat option), (js ''!a'', None, None)])
      TBoolean = [js ''a'']
   \<and> aliasesOf (parseCliArgs id [(js ''x,a'', None, None :: nat option), (js ''x,b'', None, None)])
      (js ''a'') = Some [js ''x'']
   \<and> aliasesOf (parseCliArgs id [(js ''x,a'', None, None :: nat option), (js ''x,b'', None, None)])
      (js ''b'') = Some [js ''x'']
   \<and> bucketList (parseCliArgs id [(js ''p,__proto__'', None, None :: nat option)]) TString
      = [js ''__proto__'']
   \<and> dom (aliasesOf (parseCliArgs id [(js ''p,__proto__'', None, None :: nat option)])) = {}"
proof -
  have ne: "js ''a'' \<noteq> js ''b''" "js ''a'' \<noteq> js ''__proto__''" "js ''b'' \<noteq> js ''__proto__''"
    by (simp_all add: js_def)
  have 1: "bucketList (parseCliArgs id [(js ''a'', None, None :: nat option), (js ''!a'', None, None)])
      TString = [js ''a'']
   \<and> bucketList (parseCliArgs id [(js ''a'', None, None :: nat option), (js ''!a'', None, None)])
      TBoolean = [js ''a'']"
    by (simp add: bucketList_parseCliArgs names_a)
  have 2: "aliasesOf (parseCliArgs id [(js ''x,a'', None, None :: nat option), (js ''x,b'', None, None)])
      (js ''a'') = Some [js ''x'']
   \<and> aliasesOf (parseCliArgs id [(js ''x,a'', None, None :: nat option), (js ''x,b'', None, None)])
      (js ''b'') = Some [js ''x'']"
    using ne by (simp add: parseCliArgs_def aliasesOf_argsHandle objSet_def names_shared_alias)
  have 3: "bucketList (parseCliArgs id [(js ''p,__proto__'', None, None :: nat option)]) TString
      = [js ''__proto__'']"
    by (simp add: bucketList_parseCliArgs names_proto)
  have 4: "dom (aliasesOf (parseCliArgs id [(js ''p,__proto__'', None, None :: nat option)])) = {}"
    by (simp add: parseCliArgs_def aliasesOf_argsHandle objSet_def names_proto)
      (simp add: aliasesOf_def initialOptions_def)
  from 1 2 3 4 show ?thesis by blast
qed

end
